theory Spec2Isabelle
  imports Main "HOL-Library.Word"
begin

unbundle bit_operations_syntax

section \<open>UIDRemovalDetection.ino: detecting when a card is removed\<close>

text \<open>
  The sketch keeps two pieces of state between calls of \<^verbatim>\<open>loop()\<close>: the global
  \<^verbatim>\<open>locked\<close> and the member \<^verbatim>\<open>rfid.uid\<close> of the reader object. Everything else it
  does is a call into the MFRC522 driver or into \<^verbatim>\<open>Serial\<close>. The driver and the card
  in the field are the environment of the sketch: what they answer during one pass of
  \<^verbatim>\<open>loop()\<close> is a parameter of the model, and every call the sketch makes is written
  to a trace, in program order.
\<close>

subsection \<open>Data\<close>

type_synonym byte = "8 word"

text \<open>
  Modelled from the spec: the enum \<^verbatim>\<open>MFRC522::StatusCode\<close> is declared in the driver's
  header, which is not part of the sketch. The sketch names \<^verbatim>\<open>STATUS_OK\<close> and
  \<^verbatim>\<open>STATUS_COLLISION\<close>; the spec lists Ok, Collision, Timeout, CRC-Error, Other-Error
  and leaves the list open, which \<open>STATUS_OTHER\<close> with the code's number stands for.
\<close>

datatype StatusCode =
    STATUS_OK
  | STATUS_ERROR
  | STATUS_COLLISION
  | STATUS_TIMEOUT
  | STATUS_CRC_WRONG
  | STATUS_OTHER nat

text \<open>The three registers the sketch writes (\<^verbatim>\<open>rfid.TxModeReg\<close> and so on).\<close>

datatype PCD_Register = TxModeReg | RxModeReg | ModWidthReg

text \<open>
  Modelled from the spec: the struct \<^verbatim>\<open>MFRC522::Uid\<close> is declared in the driver's header.
  The sketch uses its members \<^verbatim>\<open>size\<close> (a byte count) and \<^verbatim>\<open>uidByte\<close> (the buffer the
  bytes are in); the spec calls it a byte sequence plus a length field. The length
  of the buffer is whatever the list has, so that a read past its end is visible.
\<close>

record Uid =
  size_uid :: byte
  uidByte :: "byte list"
  sak :: byte

text \<open>The variables of the sketch that live across calls of \<^verbatim>\<open>loop()\<close>.\<close>

record sketch =
  locked :: bool
  rfid_uid :: Uid

text \<open>
  What the driver answers during one pass of \<^verbatim>\<open>loop()\<close>: the status of
  \<^verbatim>\<open>PICC_WakeupA\<close>, the status of \<^verbatim>\<open>PICC_Select\<close> together with what the call leaves
  in the \<^verbatim>\<open>Uid\<close> it was given a pointer to (as a function of the arguments), and the
  text \<^verbatim>\<open>GetStatusCodeName\<close> returns for a status. The second parameter of
  \<^verbatim>\<open>PICC_Select\<close>, the number of known bits, is a byte, as the driver's header
  declares it (\<^verbatim>\<open>byte validBits\<close>).
\<close>

record driver =
  WakeupA :: StatusCode
  Select :: "Uid \<Rightarrow> byte \<Rightarrow> StatusCode \<times> Uid"
  GetStatusCodeName :: "StatusCode \<Rightarrow> string"

text \<open>
  The calls the sketch makes. \<open>PICC_WakeupA n\<close> carries the buffer size it is given,
  \<open>PICC_Select u bits\<close> the \<^verbatim>\<open>Uid\<close> pointed to at the time of the call and the byte
  received as second argument. \<open>Serial_print t\<close> is a call that writes the text \<open>t\<close>,
  \<open>Serial_println t\<close> one that writes \<open>t\<close> and ends the line.
\<close>

datatype action =
    Serial_begin nat
  | SPI_begin
  | PCD_Init
  | delay nat
  | PCD_WriteRegister PCD_Register byte
  | PICC_WakeupA nat
  | PICC_Select Uid byte
  | PICC_HaltA
  | Serial_print string
  | Serial_println string

subsection \<open>Serial output\<close>

text \<open>
  Modelled from the spec: \<^verbatim>\<open>Serial.print(n, HEX)\<close> belongs to the Arduino core. It
  writes \<open>n\<close> in base 16 with the digits 0-9 and A-F, most significant digit
  first and without padding: a do-while loop that takes the digits off the low end.
\<close>

definition hex_digit :: "nat \<Rightarrow> char" where
  "hex_digit c = (if c < 10 then char_of (c + 48) else char_of (c + 55))"

function printNumber_HEX :: "nat \<Rightarrow> string \<Rightarrow> string" where
  "printNumber_HEX n str =
     (let str' = hex_digit (n mod 16) # str;
          n' = n div 16
      in if n' \<noteq> 0 then printNumber_HEX n' str' else str')"
  by pat_completeness auto
termination
  by (relation "measure (\<lambda>(n, str). n)") auto

definition print_HEX :: "nat \<Rightarrow> string" where
  "print_HEX n = printNumber_HEX n []"

text \<open>
  The lines a trace writes to the serial port: text accumulates until a
  \<^verbatim>\<open>println\<close> ends the line. Text that no \<^verbatim>\<open>println\<close> follows is a last line too, so
  that a trace with no line has written nothing at all.
\<close>

fun serial_lines :: "string \<Rightarrow> action list \<Rightarrow> string list" where
  "serial_lines cur [] = (if cur = [] then [] else [cur])"
| "serial_lines cur (Serial_print t # as) = serial_lines (cur @ t) as"
| "serial_lines cur (Serial_println t # as) = (cur @ t) # serial_lines [] as"
| "serial_lines cur (a # as) = serial_lines cur as"

definition events :: "action list \<Rightarrow> string list" where
  "events tr = serial_lines [] tr"

subsection \<open>printHex\<close>

text \<open>
  \<^verbatim>\<open>for (byte i = 0; i < bufferSize; i++)\<close> with three prints per byte. The counter
  is a byte, as in the source. Reading \<^verbatim>\<open>buffer[i]\<close> past the end of the buffer is
  undefined behaviour in C++: the model returns \<open>None\<close> there.
\<close>

function printHex_from :: "byte \<Rightarrow> byte list \<Rightarrow> byte \<Rightarrow> action list option" where
  "printHex_from i buffer bufferSize =
     (if i < bufferSize then
        (if unat i < length buffer then
           (case printHex_from (i + 1) buffer bufferSize of
              None \<Rightarrow> None
            | Some rest \<Rightarrow>
                Some ([Serial_print (print_HEX (unat ((drop_bit 4 (buffer ! unat i)) AND 0x0F))),
                       Serial_print (print_HEX (unat ((buffer ! unat i) AND 0x0F))),
                       Serial_print '' ''] @ rest))
         else None)
      else Some [])"
  by pat_completeness auto
termination
proof (relation "measure (\<lambda>(i, buffer, bufferSize). unat bufferSize - unat i)")
  show "wf (measure (\<lambda>(i, buffer, bufferSize). unat bufferSize - unat i))"
    by simp
next
  fix i :: byte and buffer :: "byte list" and bufferSize :: byte
  assume lt: "i < bufferSize"
  then have "unat i < unat bufferSize"
    by (simp add: word_less_nat_alt)
  moreover have "unat bufferSize < 256"
    using unsigned_less [of bufferSize, where ?'a = nat] by simp
  ultimately have "unat (i + 1) = unat i + 1"
    by (simp add: unat_word_ariths)
  moreover note \<open>unat i < unat bufferSize\<close>
  ultimately show "((i + 1, buffer, bufferSize), (i, buffer, bufferSize))
      \<in> measure (\<lambda>(i, buffer, bufferSize). unat bufferSize - unat i)"
    by simp
qed

definition printHex :: "byte list \<Rightarrow> byte \<Rightarrow> action list option" where
  "printHex buffer bufferSize = printHex_from 0 buffer bufferSize"

subsection \<open>PICC_IsAnyCardPresent\<close>

text \<open>
  Three register writes, then \<^verbatim>\<open>PICC_WakeupA\<close> on a two-byte buffer; the result is
  whether the status is \<^verbatim>\<open>STATUS_OK\<close> or \<^verbatim>\<open>STATUS_COLLISION\<close>.
\<close>

definition PICC_IsAnyCardPresent :: "driver \<Rightarrow> bool \<times> action list" where
  "PICC_IsAnyCardPresent d =
     (let bufferSize = 2;
          result = WakeupA d
      in (result = STATUS_OK \<or> result = STATUS_COLLISION,
          [PCD_WriteRegister TxModeReg 0x00,
           PCD_WriteRegister RxModeReg 0x00,
           PCD_WriteRegister ModWidthReg 0x26,
           PICC_WakeupA bufferSize]))"

subsection \<open>setup and loop\<close>

text \<open>
  The state when \<^verbatim>\<open>setup()\<close> is entered: \<^verbatim>\<open>locked\<close> has its initialiser
  \<^verbatim>\<open>false\<close>, and \<^verbatim>\<open>rfid.uid\<close> holds whatever the reader object was built with.
\<close>

definition startup :: "Uid \<Rightarrow> sketch" where
  "startup u = \<lparr>locked = False, rfid_uid = u\<rparr>"

definition setup_sketch :: "sketch \<Rightarrow> sketch \<times> action list" where
  "setup_sketch s =
     (s\<lparr>rfid_uid := (rfid_uid s)\<lparr>size_uid := 0\<rparr>\<rparr>,
      [Serial_begin 9600, SPI_begin, PCD_Init, delay 4,
       Serial_println ''This code scan the MIFARE Classsic NUID and reports removal.''])"

text \<open>
  One pass of \<^verbatim>\<open>loop()\<close>. The second argument of \<^verbatim>\<open>PICC_Select\<close> is the value of the
  expression \<^verbatim>\<open>8*rfid.uid.size\<close>, computed in \<^verbatim>\<open>int\<close> (at most 2040, so it does not
  overflow) and then converted to the byte parameter of the call, which keeps its
  low 8 bits. The call gets a pointer to \<^verbatim>\<open>rfid.uid\<close>: what it leaves there is the
  \<^verbatim>\<open>rfid.uid\<close> of the rest of the pass. The three branches are tested in the order
  of the source.
\<close>

definition loop :: "driver \<Rightarrow> sketch \<Rightarrow> (sketch \<times> action list) option" where
  "loop d s =
     (let (cardPresent, t1) = PICC_IsAnyCardPresent d
      in if \<not> locked s \<and> \<not> cardPresent then Some (s, t1)
         else
           let validBits = word_of_nat (8 * unat (size_uid (rfid_uid s)));
               (result, u) = Select d (rfid_uid s) validBits;
               t2 = t1 @ [PICC_Select (rfid_uid s) validBits];
               s1 = s\<lparr>rfid_uid := u\<rparr>
           in if \<not> locked s1 \<and> result = STATUS_OK then
                (case printHex (uidByte (rfid_uid s1)) (size_uid (rfid_uid s1)) of
                   None \<Rightarrow> None
                 | Some tp \<Rightarrow>
                     Some (s1\<lparr>locked := True\<rparr>,
                           t2 @ [Serial_print ''locked! NUID tag: ''] @ tp
                              @ [Serial_println [], PICC_HaltA]))
              else if locked s1 \<and> result \<noteq> STATUS_OK then
                Some (s1\<lparr>locked := False, rfid_uid := (rfid_uid s1)\<lparr>size_uid := 0\<rparr>\<rparr>,
                      t2 @ [Serial_print ''unlocked! Reason for unlocking: '',
                            Serial_println (GetStatusCodeName d result),
                            PICC_HaltA])
              else if \<not> locked s1 \<and> result \<noteq> STATUS_OK then
                Some (s1\<lparr>rfid_uid := (rfid_uid s1)\<lparr>size_uid := 0\<rparr>\<rparr>, t2 @ [PICC_HaltA])
              else Some (s1, t2 @ [PICC_HaltA]))"

text \<open>
  The Arduino runtime calls \<^verbatim>\<open>loop()\<close> again and again. A run is a finite number of
  passes, one driver answer per pass; it is undefined as soon as one pass is.
\<close>

fun run_loop :: "driver list \<Rightarrow> sketch \<Rightarrow> (sketch \<times> action list) option" where
  "run_loop [] s = Some (s, [])"
| "run_loop (d # ds) s =
     (case loop d s of
        None \<Rightarrow> None
      | Some (s1, t1) \<Rightarrow>
          (case run_loop ds s1 of
             None \<Rightarrow> None
           | Some (s2, t2) \<Rightarrow> Some (s2, t1 @ t2)))"

subsection \<open>Notions of the specification\<close>

text \<open>
  The presence probe, in the words of the specification: the two mode registers
  and the modulation-width register are reset, then a wakeup command is issued.
\<close>

definition presence_probe :: "action list" where
  "presence_probe =
     [PCD_WriteRegister TxModeReg 0x00,
      PCD_WriteRegister RxModeReg 0x00,
      PCD_WriteRegister ModWidthReg 0x26,
      PICC_WakeupA 2]"

text \<open>
  The hex dump, in the words of the specification: every byte as exactly two
  hexadecimal digits, followed by one space.
\<close>

definition two_hex_digits :: "byte \<Rightarrow> string" where
  "two_hex_digits b =
     [''0123456789ABCDEF'' ! (unat b div 16), ''0123456789ABCDEF'' ! (unat b mod 16)]"

definition hex_dump :: "byte list \<Rightarrow> string" where
  "hex_dump bs = concat (map (\<lambda>b. two_hex_digits b @ '' '') bs)"

text \<open>The bytes a \<^verbatim>\<open>Uid\<close> holds: the first \<^verbatim>\<open>size\<close> bytes of its buffer.\<close>

definition identifier_bytes :: "Uid \<Rightarrow> byte list" where
  "identifier_bytes u = take (unat (size_uid u)) (uidByte u)"

text \<open>A \<^verbatim>\<open>Uid\<close> whose length field does not exceed its buffer.\<close>

definition in_bounds :: "Uid \<Rightarrow> bool" where
  "in_bounds u = (unat (size_uid u) \<le> length (uidByte u))"

text \<open>The three prints of \<^verbatim>\<open>printHex\<close> for one byte.\<close>

definition byte_prints :: "byte \<Rightarrow> action list" where
  "byte_prints b =
     [Serial_print [''0123456789ABCDEF'' ! (unat b div 16)],
      Serial_print [''0123456789ABCDEF'' ! (unat b mod 16)],
      Serial_print '' '']"

subsection \<open>Cards, drivers and states of the scenarios\<close>

definition uid_blank :: Uid where
  "uid_blank = \<lparr>size_uid = 0, uidByte = [0, 0, 0, 0, 0, 0, 0, 0, 0, 0], sak = 0\<rparr>"

definition uid_04A23B9C :: Uid where
  "uid_04A23B9C =
     \<lparr>size_uid = 4, uidByte = [0x04, 0xA2, 0x3B, 0x9C, 0, 0, 0, 0, 0, 0], sak = 0x08\<rparr>"

text \<open>A failed selection that has left two bytes and a length behind.\<close>

definition uid_partial :: Uid where
  "uid_partial =
     \<lparr>size_uid = 4, uidByte = [0x04, 0xA2, 0, 0, 0, 0, 0, 0, 0, 0], sak = 0\<rparr>"

text \<open>
  Modelled from the spec: the texts of \<^verbatim>\<open>GetStatusCodeName\<close> are the driver's. Scenario C
  gives the one for a timeout; the other text here is a stand-in.
\<close>

definition scenario_names :: "StatusCode \<Rightarrow> string" where
  "scenario_names r =
     (if r = STATUS_TIMEOUT then ''Timeout in communication'' else ''Error in communication'')"

text \<open>No card in the field: the wakeup and any selection time out.\<close>

definition no_card :: driver where
  "no_card =
     \<lparr>WakeupA = STATUS_TIMEOUT,
      Select = (\<lambda>u validBits. (STATUS_TIMEOUT, u)),
      GetStatusCodeName = scenario_names\<rparr>"

text \<open>The card 04 A2 3B 9C alone in the field.\<close>

definition card_in_field :: driver where
  "card_in_field =
     \<lparr>WakeupA = STATUS_OK,
      Select = (\<lambda>u validBits. (STATUS_OK, uid_04A23B9C)),
      GetStatusCodeName = scenario_names\<rparr>"

text \<open>
  A second card next to the card 04 A2 3B 9C: the wakeup reports a collision, the
  selection finds 04 A2 3B 9C.
\<close>

definition second_card_in_field :: driver where
  "second_card_in_field =
     \<lparr>WakeupA = STATUS_COLLISION,
      Select = (\<lambda>u validBits. (STATUS_OK, uid_04A23B9C)),
      GetStatusCodeName = scenario_names\<rparr>"

text \<open>A card answers the wakeup, the selection fails on the checksum.\<close>

definition crc_failure :: driver where
  "crc_failure =
     \<lparr>WakeupA = STATUS_OK,
      Select = (\<lambda>u validBits. (STATUS_CRC_WRONG, uid_partial)),
      GetStatusCodeName = scenario_names\<rparr>"






definition unlocked_blank :: sketch where
  "unlocked_blank = \<lparr>locked = False, rfid_uid = uid_blank\<rparr>"

definition locked_04A23B9C :: sketch where
  "locked_04A23B9C = \<lparr>locked = True, rfid_uid = uid_04A23B9C\<rparr>"

section \<open>Properties\<close>

subsection \<open>Bytes and hexadecimal digits\<close>

lemma unat_byte_less: "unat (b :: byte) < 256"
  using unsigned_less [of b, where ?'a = nat] by simp

lemma unat_succ_byte: "(i :: byte) < n \<Longrightarrow> unat (i + 1) = Suc (unat i)"
  using unat_byte_less [of n] by (simp add: word_less_nat_alt unat_word_ariths)


lemma mask4: "(0x0F :: byte) = mask 4"
  by (simp add: mask_eq_exp_minus_1)

lemma low_nibble: "unat ((b :: byte) AND 0x0F) = unat b mod 16"
proof -
  have "b AND 0x0F = take_bit 4 b"
    by (simp only: mask4 take_bit_eq_mask)
  then show ?thesis
    by (simp add: take_bit_eq_mod unat_mod)
qed

lemma high_nibble: "unat ((drop_bit 4 (b :: byte)) AND 0x0F) = unat b div 16"
proof -
  have "unat b div 16 < 16"
    using unat_byte_less [of b] by simp
  moreover have "unat (drop_bit 4 b) = unat b div 16"
    by (simp add: drop_bit_eq_div unat_div)
  ultimately show ?thesis
    by (simp add: low_nibble)
qed

lemma hex_digit_table: "\<forall>n \<in> set [0..<16]. hex_digit n = ''0123456789ABCDEF'' ! n"
  by code_simp

lemma hex_digit_nth: "n < 16 \<Longrightarrow> hex_digit n = ''0123456789ABCDEF'' ! n"
  using hex_digit_table by simp

lemma print_HEX_digit: "n < 16 \<Longrightarrow> print_HEX n = [''0123456789ABCDEF'' ! n]"
  unfolding print_HEX_def by (subst printNumber_HEX.simps) (simp add: hex_digit_nth)

subsection \<open>printHex writes the hex dump\<close>

lemma printHex_from_prints:
  "unat bufferSize \<le> length buffer \<Longrightarrow> unat i \<le> unat bufferSize \<Longrightarrow>
   printHex_from i buffer bufferSize =
     Some (concat (map byte_prints (drop (unat i) (take (unat bufferSize) buffer))))"
proof (induction i buffer bufferSize rule: printHex_from.induct)
  case (1 i buffer bufferSize)
  show ?case
  proof (cases "i < bufferSize")
    case True
    then have lt: "unat i < unat bufferSize"
      by (simp add: word_less_nat_alt)
    have suc: "unat (i + 1) = Suc (unat i)"
      using True by (rule unat_succ_byte)
    have inb: "unat i < length buffer"
      using lt "1.prems"(1) by simp
    have rest: "printHex_from (i + 1) buffer bufferSize =
        Some (concat (map byte_prints (drop (Suc (unat i)) (take (unat bufferSize) buffer))))"
      using "1.IH" [OF True inb "1.prems"(1)] lt suc by simp
    have split: "drop (unat i) (take (unat bufferSize) buffer) =
        buffer ! unat i # drop (Suc (unat i)) (take (unat bufferSize) buffer)"
      using lt inb by (simp add: Cons_nth_drop_Suc [symmetric])
    have hi: "print_HEX (unat ((drop_bit 4 (buffer ! unat i)) AND 0x0F)) =
        [''0123456789ABCDEF'' ! (unat (buffer ! unat i) div 16)]"
      using unat_byte_less [of "buffer ! unat i"]
      by (simp only: high_nibble) (simp add: print_HEX_digit)
    have lo: "print_HEX (unat ((buffer ! unat i) AND 0x0F)) =
        [''0123456789ABCDEF'' ! (unat (buffer ! unat i) mod 16)]"
      by (simp only: low_nibble) (simp add: print_HEX_digit)
    show ?thesis
      by (subst printHex_from.simps)
        (simp only: True inb rest split hi lo, simp add: byte_prints_def)
  next
    case False
    then have "unat i = unat bufferSize"
      using "1.prems"(2) by (simp add: word_less_nat_alt)
    then show ?thesis
      using False by (subst printHex_from.simps) simp
  qed
qed

lemma printHex_prints:
  "unat (size_uid u) \<le> length (uidByte u) \<Longrightarrow>
   printHex (uidByte u) (size_uid u) = Some (concat (map byte_prints (identifier_bytes u)))"
  unfolding printHex_def identifier_bytes_def
  using printHex_from_prints [of "size_uid u" "uidByte u" 0] by simp

lemma serial_lines_byte_prints:
  "serial_lines cur (concat (map byte_prints bs) @ rest) = serial_lines (cur @ hex_dump bs) rest"
  by (induction bs arbitrary: cur) (simp_all add: byte_prints_def hex_dump_def two_hex_digits_def)

lemma printHex_from_None:
  "length buffer < unat bufferSize \<Longrightarrow> unat i \<le> length buffer \<Longrightarrow>
   printHex_from i buffer bufferSize = None"
proof (induction i buffer bufferSize rule: printHex_from.induct)
  case (1 i buffer bufferSize)
  have lt: "i < bufferSize"
    using "1.prems" by (simp add: word_less_nat_alt)
  show ?case
  proof (cases "unat i < length buffer")
    case True
    have "unat (i + 1) = Suc (unat i)"
      using lt by (rule unat_succ_byte)
    then have "printHex_from (i + 1) buffer bufferSize = None"
      using "1.IH" [OF lt True "1.prems"(1)] True by simp
    then show ?thesis
      using lt True by (subst printHex_from.simps) simp
  next
    case False
    then show ?thesis
      using lt by (subst printHex_from.simps) simp
  qed
qed

lemma printHex_None:
  "\<not> in_bounds u \<Longrightarrow> printHex (uidByte u) (size_uid u) = None"
  unfolding printHex_def in_bounds_def
  using printHex_from_None [of "uidByte u" "size_uid u" 0] by simp

subsection \<open>One pass of loop, case by case\<close>

lemma probe_eq:
  "PICC_IsAnyCardPresent d = (WakeupA d = STATUS_OK \<or> WakeupA d = STATUS_COLLISION, presence_probe)"
  by (simp add: PICC_IsAnyCardPresent_def presence_probe_def Let_def)

lemma loop_early_exit:
  "\<not> locked s \<Longrightarrow> \<not> fst (PICC_IsAnyCardPresent d) \<Longrightarrow> loop d s = Some (s, presence_probe)"
  by (simp add: loop_def probe_eq)

lemma loop_lock:
  assumes "\<not> locked s" and "fst (PICC_IsAnyCardPresent d)"
    and "Select d (rfid_uid s) (word_of_nat (8 * unat (size_uid (rfid_uid s)))) = (STATUS_OK, u)"
    and "in_bounds u"
  shows "loop d s =
    Some (s\<lparr>rfid_uid := u, locked := True\<rparr>,
          presence_probe
            @ [PICC_Select (rfid_uid s) (word_of_nat (8 * unat (size_uid (rfid_uid s)))),
               Serial_print ''locked! NUID tag: '']
            @ concat (map byte_prints (identifier_bytes u))
            @ [Serial_println [], PICC_HaltA])"
  using assms by (simp add: loop_def probe_eq printHex_prints in_bounds_def)

lemma loop_out_of_bounds:
  assumes "\<not> locked s" and "fst (PICC_IsAnyCardPresent d)"
    and "Select d (rfid_uid s) (word_of_nat (8 * unat (size_uid (rfid_uid s)))) = (STATUS_OK, u)"
    and "\<not> in_bounds u"
  shows "loop d s = None"
  using assms by (simp add: loop_def probe_eq printHex_None)

lemma loop_unlock:
  assumes "locked s"
    and "Select d (rfid_uid s) (word_of_nat (8 * unat (size_uid (rfid_uid s)))) = (r, u)"
    and "r \<noteq> STATUS_OK"
  shows "loop d s =
    Some (s\<lparr>locked := False, rfid_uid := u\<lparr>size_uid := 0\<rparr>\<rparr>,
          presence_probe
            @ [PICC_Select (rfid_uid s) (word_of_nat (8 * unat (size_uid (rfid_uid s)))),
               Serial_print ''unlocked! Reason for unlocking: '',
               Serial_println (GetStatusCodeName d r),
               PICC_HaltA])"
  using assms by (simp add: loop_def probe_eq)

lemma loop_clear:
  assumes "\<not> locked s" and "fst (PICC_IsAnyCardPresent d)"
    and "Select d (rfid_uid s) (word_of_nat (8 * unat (size_uid (rfid_uid s)))) = (r, u)"
    and "r \<noteq> STATUS_OK"
  shows "loop d s =
    Some (s\<lparr>rfid_uid := u\<lparr>size_uid := 0\<rparr>\<rparr>,
          presence_probe
            @ [PICC_Select (rfid_uid s) (word_of_nat (8 * unat (size_uid (rfid_uid s)))), PICC_HaltA])"
  using assms by (simp add: loop_def probe_eq)

lemma loop_keep:
  assumes "locked s"
    and "Select d (rfid_uid s) (word_of_nat (8 * unat (size_uid (rfid_uid s)))) = (STATUS_OK, u)"
  shows "loop d s =
    Some (s\<lparr>rfid_uid := u\<rparr>,
          presence_probe
            @ [PICC_Select (rfid_uid s) (word_of_nat (8 * unat (size_uid (rfid_uid s)))), PICC_HaltA])"
  using assms by (simp add: loop_def probe_eq)

lemma loop_probe_ignored_when_locked:
  "locked s \<Longrightarrow> loop (d\<lparr>WakeupA := w\<rparr>) s = loop d s"
  by (simp add: loop_def PICC_IsAnyCardPresent_def Let_def split: prod.splits)

text \<open>Every pass is one of six cases.\<close>

lemma loop_cases:
  obtains
    (early_exit) "\<not> locked s" "\<not> fst (PICC_IsAnyCardPresent d)"
      "loop d s = Some (s, presence_probe)"
  | (lock) u where "\<not> locked s" "fst (PICC_IsAnyCardPresent d)"
      "Select d (rfid_uid s) (word_of_nat (8 * unat (size_uid (rfid_uid s)))) = (STATUS_OK, u)" "in_bounds u"
      "loop d s =
        Some (s\<lparr>rfid_uid := u, locked := True\<rparr>,
          presence_probe
            @ [PICC_Select (rfid_uid s) (word_of_nat (8 * unat (size_uid (rfid_uid s)))),
               Serial_print ''locked! NUID tag: '']
            @ concat (map byte_prints (identifier_bytes u))
            @ [Serial_println [], PICC_HaltA])"
  | (out_of_bounds) u where "\<not> locked s" "fst (PICC_IsAnyCardPresent d)"
      "Select d (rfid_uid s) (word_of_nat (8 * unat (size_uid (rfid_uid s)))) = (STATUS_OK, u)" "\<not> in_bounds u"
      "loop d s = None"
  | (unlock) r u where "locked s"
      "Select d (rfid_uid s) (word_of_nat (8 * unat (size_uid (rfid_uid s)))) = (r, u)" "r \<noteq> STATUS_OK"
      "loop d s =
        Some (s\<lparr>locked := False, rfid_uid := u\<lparr>size_uid := 0\<rparr>\<rparr>,
          presence_probe
            @ [PICC_Select (rfid_uid s) (word_of_nat (8 * unat (size_uid (rfid_uid s)))),
               Serial_print ''unlocked! Reason for unlocking: '',
               Serial_println (GetStatusCodeName d r),
               PICC_HaltA])"
  | (clear) r u where "\<not> locked s" "fst (PICC_IsAnyCardPresent d)"
      "Select d (rfid_uid s) (word_of_nat (8 * unat (size_uid (rfid_uid s)))) = (r, u)" "r \<noteq> STATUS_OK"
      "loop d s =
        Some (s\<lparr>rfid_uid := u\<lparr>size_uid := 0\<rparr>\<rparr>,
          presence_probe
            @ [PICC_Select (rfid_uid s) (word_of_nat (8 * unat (size_uid (rfid_uid s)))), PICC_HaltA])"
  | (keep) u where "locked s"
      "Select d (rfid_uid s) (word_of_nat (8 * unat (size_uid (rfid_uid s)))) = (STATUS_OK, u)"
      "loop d s =
        Some (s\<lparr>rfid_uid := u\<rparr>,
          presence_probe
            @ [PICC_Select (rfid_uid s) (word_of_nat (8 * unat (size_uid (rfid_uid s)))), PICC_HaltA])"
proof -
  obtain r u where sel: "Select d (rfid_uid s) (word_of_nat (8 * unat (size_uid (rfid_uid s)))) = (r, u)"
    by (cases "Select d (rfid_uid s) (word_of_nat (8 * unat (size_uid (rfid_uid s))))")
  show thesis
  proof (cases "locked s")
    case True
    show ?thesis
    proof (cases "r = STATUS_OK")
      case ok: True
      show ?thesis
        using keep [of u] loop_keep [of s d u] True sel ok by simp
    next
      case False
      then show ?thesis
        using unlock [of r u] loop_unlock [of s d r u] True sel by simp
    qed
  next
    case unl: False
    show ?thesis
    proof (cases "fst (PICC_IsAnyCardPresent d)")
      case False
      then show ?thesis
        using early_exit loop_early_exit [of s d] unl by simp
    next
      case True
      show ?thesis
      proof (cases "r = STATUS_OK")
        case ok: True
        show ?thesis
        proof (cases "in_bounds u")
          case True
          then show ?thesis
            using lock [of u] loop_lock [of s d u] unl \<open>fst (PICC_IsAnyCardPresent d)\<close> sel ok
            by simp
        next
          case False
          then show ?thesis
            using out_of_bounds [of u] loop_out_of_bounds [of s d u] unl
              \<open>fst (PICC_IsAnyCardPresent d)\<close> sel ok
            by simp
        qed
      next
        case False
        then show ?thesis
          using clear [of r u] loop_clear [of s d r u] unl True sel by simp
      qed
    qed
  qed
qed

subsection \<open>Runs\<close>

lemma loop_invariant:
  assumes "loop d s = Some (s', tr)"
    and "0 < unat (size_uid (rfid_uid s)) \<longrightarrow> locked s"
  shows "0 < unat (size_uid (rfid_uid s')) \<longrightarrow> locked s'"
  by (rule loop_cases [of s d]) (use assms in auto)

lemma run_loop_invariant:
  "run_loop ds s = Some (s', tr) \<Longrightarrow> (0 < unat (size_uid (rfid_uid s)) \<longrightarrow> locked s) \<Longrightarrow>
   0 < unat (size_uid (rfid_uid s')) \<longrightarrow> locked s'"
proof (induction ds arbitrary: s tr)
  case Nil
  then show ?case by simp
next
  case (Cons d ds)
  from Cons.prems(1) obtain s1 t1 t2 where
    step: "loop d s = Some (s1, t1)" and rest: "run_loop ds s1 = Some (s', t2)"
    by (auto split: option.splits prod.splits)
  have "0 < unat (size_uid (rfid_uid s1)) \<longrightarrow> locked s1"
    using step Cons.prems(2) by (rule loop_invariant)
  with rest show ?case
    by (rule Cons.IH)
qed

lemma loop_defined:
  "fst (Select d (rfid_uid s) (word_of_nat (8 * unat (size_uid (rfid_uid s))))) = STATUS_OK \<longrightarrow>
     in_bounds (snd (Select d (rfid_uid s) (word_of_nat (8 * unat (size_uid (rfid_uid s)))))) \<Longrightarrow>
   loop d s \<noteq> None"
  by (rule loop_cases [of s d]) auto

lemma run_loop_defined:
  "\<forall>d \<in> set ds. \<forall>u n. fst (Select d u n) = STATUS_OK \<longrightarrow> in_bounds (snd (Select d u n)) \<Longrightarrow>
   run_loop ds s \<noteq> None"
proof (induction ds arbitrary: s)
  case Nil
  then show ?case by simp
next
  case (Cons d ds)
  then have "loop d s \<noteq> None"
    by (simp add: loop_defined)
  then obtain s1 t1 where "loop d s = Some (s1, t1)"
    by auto
  moreover have "run_loop ds s1 \<noteq> None"
    using Cons by simp
  ultimately show ?case
    by auto
qed



lemma events_presence_probe: "events (presence_probe @ tr) = events tr"
  by (simp add: events_def presence_probe_def)

lemma events_locked_line:
  "events (presence_probe @ [PICC_Select u n, Serial_print t]
      @ concat (map byte_prints bs) @ [Serial_println [], PICC_HaltA]) = [t @ hex_dump bs]"
  by (simp add: events_def presence_probe_def serial_lines_byte_prints)

lemma byte_prints_no_calls:
  "PICC_HaltA \<notin> set (concat (map byte_prints bs))"
  "PICC_Select u n \<notin> set (concat (map byte_prints bs))"
  by (auto simp: byte_prints_def)

subsection \<open>The scenarios, evaluated\<close>

lemma scenario_A: "loop no_card unlocked_blank = Some (unlocked_blank, presence_probe)"
  by code_simp

lemma scenario_B:
  "loop card_in_field unlocked_blank =
     Some (locked_04A23B9C,
       presence_probe
         @ [PICC_Select uid_blank 0, Serial_print ''locked! NUID tag: '',
            Serial_print ''0'', Serial_print ''4'', Serial_print '' '',
            Serial_print ''A'', Serial_print ''2'', Serial_print '' '',
            Serial_print ''3'', Serial_print ''B'', Serial_print '' '',
            Serial_print ''9'', Serial_print ''C'', Serial_print '' '',
            Serial_println [], PICC_HaltA])"
  by code_simp

lemma scenario_C:
  "loop no_card locked_04A23B9C =
     Some (\<lparr>locked = False, rfid_uid = uid_04A23B9C\<lparr>size_uid := 0\<rparr>\<rparr>,
       presence_probe
         @ [PICC_Select uid_04A23B9C 32,
            Serial_print ''unlocked! Reason for unlocking: '',
            Serial_println ''Timeout in communication'', PICC_HaltA])"
  by code_simp

lemma scenario_D:
  "loop crc_failure unlocked_blank =
     Some (\<lparr>locked = False, rfid_uid = uid_partial\<lparr>size_uid := 0\<rparr>\<rparr>,
       presence_probe @ [PICC_Select uid_blank 0, PICC_HaltA])"
  by code_simp

lemma scenario_second_card:
  "loop second_card_in_field locked_04A23B9C =
     Some (locked_04A23B9C, presence_probe @ [PICC_Select uid_04A23B9C 32, PICC_HaltA])"
  by code_simp




lemma hex_dump_04A23B9C: "hex_dump [0x04, 0xA2, 0x3B, 0x9C] = ''04 A2 3B 9C ''"
  by code_simp

lemma scenario_run:
  "run_loop [no_card, card_in_field, second_card_in_field]
     (fst (setup_sketch (startup uid_partial))) =
   Some (locked_04A23B9C,
     presence_probe
       @ presence_probe
       @ [PICC_Select (uid_partial\<lparr>size_uid := 0\<rparr>) 0, Serial_print ''locked! NUID tag: '',
          Serial_print ''0'', Serial_print ''4'', Serial_print '' '',
          Serial_print ''A'', Serial_print ''2'', Serial_print '' '',
          Serial_print ''3'', Serial_print ''B'', Serial_print '' '',
          Serial_print ''9'', Serial_print ''C'', Serial_print '' '',
          Serial_println [], PICC_HaltA]
       @ presence_probe @ [PICC_Select uid_04A23B9C 32, PICC_HaltA])"
  by code_simp

section \<open>The claims\<close>

text \<open>
  C1. Starting from the state \<^verbatim>\<open>setup()\<close> leaves (\<^verbatim>\<open>locked\<close> false, length 0), at the
  end of every pass of \<^verbatim>\<open>loop()\<close> the length of the identifier is greater than 0
  only if \<^verbatim>\<open>locked\<close> is true. The run is any finite number of passes with any
  answers of the driver; it is defined whenever every successful selection leaves a
  \<^verbatim>\<open>Uid\<close> that fits its buffer.
\<close>

theorem C1_size_positive_only_if_locked:
  "(run_loop ds (fst (setup_sketch (startup u0))) = Some (s, tr) \<longrightarrow>
      (0 < unat (size_uid (rfid_uid s)) \<longrightarrow> locked s))
   \<and> ((\<forall>d \<in> set ds. \<forall>u n. fst (Select d u n) = STATUS_OK \<longrightarrow> in_bounds (snd (Select d u n))) \<longrightarrow>
        run_loop ds (fst (setup_sketch (startup u0))) \<noteq> None)"
proof -
  have "0 < unat (size_uid (rfid_uid (fst (setup_sketch (startup u0))))) \<longrightarrow>
      locked (fst (setup_sketch (startup u0)))"
    by (simp add: setup_sketch_def)
  then have "run_loop ds (fst (setup_sketch (startup u0))) = Some (s, tr) \<longrightarrow>
      (0 < unat (size_uid (rfid_uid s)) \<longrightarrow> locked s)"
    using run_loop_invariant [of ds "fst (setup_sketch (startup u0))" s tr] by simp
  moreover have "(\<forall>d \<in> set ds. \<forall>u n. fst (Select d u n) = STATUS_OK \<longrightarrow> in_bounds (snd (Select d u n))) \<longrightarrow>
      run_loop ds (fst (setup_sketch (startup u0))) \<noteq> None"
    using run_loop_defined [of ds "fst (setup_sketch (startup u0))"] by simp
  ultimately show ?thesis
    by (rule conjI)
qed

theorem C1_size_positive_only_if_locked_witness:
  "run_loop [no_card, card_in_field, second_card_in_field]
       (fst (setup_sketch (startup uid_partial))) \<noteq> None
   \<and> map_option fst (run_loop [no_card, card_in_field, second_card_in_field]
       (fst (setup_sketch (startup uid_partial)))) = Some locked_04A23B9C
   \<and> 0 < unat (size_uid (rfid_uid locked_04A23B9C))
   \<and> locked locked_04A23B9C"
proof -
  have fits: "\<forall>d \<in> set [no_card, card_in_field, second_card_in_field].
      \<forall>u n. fst (Select d u n) = STATUS_OK \<longrightarrow> in_bounds (snd (Select d u n))"
    by (simp add: no_card_def card_in_field_def second_card_in_field_def in_bounds_def
        uid_04A23B9C_def)
  have held: "0 < unat (size_uid (rfid_uid locked_04A23B9C))"
    by (simp add: locked_04A23B9C_def uid_04A23B9C_def)
  note inst = C1_size_positive_only_if_locked
    [of "[no_card, card_in_field, second_card_in_field]" uid_partial locked_04A23B9C
      "presence_probe
       @ presence_probe
       @ [PICC_Select (uid_partial\<lparr>size_uid := 0\<rparr>) 0, Serial_print ''locked! NUID tag: '',
          Serial_print ''0'', Serial_print ''4'', Serial_print '' '',
          Serial_print ''A'', Serial_print ''2'', Serial_print '' '',
          Serial_print ''3'', Serial_print ''B'', Serial_print '' '',
          Serial_print ''9'', Serial_print ''C'', Serial_print '' '',
          Serial_println [], PICC_HaltA]
       @ presence_probe @ [PICC_Select uid_04A23B9C 32, PICC_HaltA]"]
  have "locked locked_04A23B9C"
    using inst scenario_run held by blast
  moreover have "run_loop [no_card, card_in_field, second_card_in_field]
      (fst (setup_sketch (startup uid_partial))) \<noteq> None"
    using inst fits by blast
  moreover have "map_option fst (run_loop [no_card, card_in_field, second_card_in_field]
      (fst (setup_sketch (startup uid_partial)))) = Some locked_04A23B9C"
    by (simp only: scenario_run option.map fst_conv)
  ultimately show ?thesis
    using held by blast
qed

text \<open>
  C2. A pass entered with \<^verbatim>\<open>locked\<close> true whose selection returns a status other than
  \<^verbatim>\<open>STATUS_OK\<close> sets \<^verbatim>\<open>locked\<close> to false, sets the length of the identifier to 0
  and writes exactly one line: \<^verbatim>\<open>unlocked! Reason for unlocking: \<close> followed by the
  text the driver gives for that status.
\<close>

theorem C2_locked_select_failed_unlocks:
  assumes "locked s"
    and "Select d (rfid_uid s) (word_of_nat (8 * unat (size_uid (rfid_uid s)))) = (r, u)"
    and "r \<noteq> STATUS_OK"
  shows "\<exists>s' tr. loop d s = Some (s', tr)
    \<and> \<not> locked s'
    \<and> size_uid (rfid_uid s') = 0
    \<and> identifier_bytes (rfid_uid s') = []
    \<and> events tr = [''unlocked! Reason for unlocking: '' @ GetStatusCodeName d r]"
proof -
  have "events (presence_probe
      @ [PICC_Select (rfid_uid s) (word_of_nat (8 * unat (size_uid (rfid_uid s)))),
         Serial_print ''unlocked! Reason for unlocking: '',
         Serial_println (GetStatusCodeName d r),
         PICC_HaltA]) = [''unlocked! Reason for unlocking: '' @ GetStatusCodeName d r]"
    by (simp add: events_presence_probe) (simp add: events_def)
  then show ?thesis
    using loop_unlock [OF assms] by (simp add: identifier_bytes_def)
qed

theorem C2_locked_select_failed_unlocks_witness:
  "locked locked_04A23B9C
   \<and> Select no_card (rfid_uid locked_04A23B9C) (word_of_nat (8 * unat (size_uid (rfid_uid locked_04A23B9C))))
       = (STATUS_TIMEOUT, uid_04A23B9C)
   \<and> STATUS_TIMEOUT \<noteq> STATUS_OK
   \<and> (\<exists>s' tr. loop no_card locked_04A23B9C = Some (s', tr)
        \<and> \<not> locked s'
        \<and> size_uid (rfid_uid s') = 0
        \<and> identifier_bytes (rfid_uid s') = []
        \<and> events tr = [''unlocked! Reason for unlocking: Timeout in communication''])"
proof -
  have a: "locked locked_04A23B9C"
    by (simp add: locked_04A23B9C_def)
  have b: "Select no_card (rfid_uid locked_04A23B9C)
      (word_of_nat (8 * unat (size_uid (rfid_uid locked_04A23B9C)))) = (STATUS_TIMEOUT, uid_04A23B9C)"
    by (simp add: no_card_def locked_04A23B9C_def)
  have c: "STATUS_TIMEOUT \<noteq> STATUS_OK"
    by simp
  have name: "GetStatusCodeName no_card STATUS_TIMEOUT = ''Timeout in communication''"
    by (simp add: no_card_def scenario_names_def)
  show ?thesis
    using C2_locked_select_failed_unlocks [OF a b c] a b by (simp add: name)
qed

text \<open>
  C3. A pass entered with \<^verbatim>\<open>locked\<close> false, on which a card is detected and the
  selection returns \<^verbatim>\<open>STATUS_OK\<close> leaving the identifier \<open>u\<close>, sets \<^verbatim>\<open>locked\<close> to
  true, keeps \<open>u\<close> as the identifier and writes exactly one line:
  \<^verbatim>\<open>locked! NUID tag: \<close> followed by every byte of \<open>u\<close> as exactly two hexadecimal
  digits and one space. The bytes of \<open>u\<close> are the first \<^verbatim>\<open>size\<close> bytes of its buffer.
\<close>

theorem C3_unlocked_select_ok_locks:
  assumes "\<not> locked s" and "fst (PICC_IsAnyCardPresent d)"
    and "Select d (rfid_uid s) (word_of_nat (8 * unat (size_uid (rfid_uid s)))) = (STATUS_OK, u)"
    and "in_bounds u"
  shows "\<exists>s' tr. loop d s = Some (s', tr)
    \<and> locked s'
    \<and> rfid_uid s' = u
    \<and> events tr = [''locked! NUID tag: '' @ hex_dump (identifier_bytes u)]"
  using loop_lock [OF assms]
    events_locked_line [of "rfid_uid s" "word_of_nat (8 * unat (size_uid (rfid_uid s)))"
      "''locked! NUID tag: ''" "identifier_bytes u"]
  by simp

theorem C3_unlocked_select_ok_locks_witness:
  "\<not> locked unlocked_blank
   \<and> fst (PICC_IsAnyCardPresent card_in_field)
   \<and> Select card_in_field (rfid_uid unlocked_blank) (word_of_nat (8 * unat (size_uid (rfid_uid unlocked_blank))))
       = (STATUS_OK, uid_04A23B9C)
   \<and> in_bounds uid_04A23B9C
   \<and> identifier_bytes uid_04A23B9C = [0x04, 0xA2, 0x3B, 0x9C]
   \<and> (\<exists>s' tr. loop card_in_field unlocked_blank = Some (s', tr)
        \<and> locked s'
        \<and> rfid_uid s' = uid_04A23B9C
        \<and> events tr = [''locked! NUID tag: 04 A2 3B 9C ''])"
proof -
  have a: "\<not> locked unlocked_blank"
    by (simp add: unlocked_blank_def)
  have b: "fst (PICC_IsAnyCardPresent card_in_field)"
    by (simp add: probe_eq card_in_field_def)
  have c: "Select card_in_field (rfid_uid unlocked_blank)
      (word_of_nat (8 * unat (size_uid (rfid_uid unlocked_blank)))) = (STATUS_OK, uid_04A23B9C)"
    by (simp add: card_in_field_def)
  have e: "in_bounds uid_04A23B9C"
    by (simp add: in_bounds_def uid_04A23B9C_def)
  have bytes: "identifier_bytes uid_04A23B9C = [0x04, 0xA2, 0x3B, 0x9C]"
    by (simp add: identifier_bytes_def uid_04A23B9C_def)
  show ?thesis
    using C3_unlocked_select_ok_locks [OF a b c e] a b c e
    by (simp add: bytes hex_dump_04A23B9C)
qed

text \<open>
  C4, as claimed: the presence probe is performed only on passes entered with
  \<^verbatim>\<open>locked\<close> false, and is skipped when \<^verbatim>\<open>locked\<close> is true. The code calls
  \<^verbatim>\<open>PICC_IsAnyCardPresent\<close> first thing on every pass: entered with \<^verbatim>\<open>locked\<close> true and
  the card 04 A2 3B 9C held, the pass writes the three registers and issues the
  wakeup before it selects.
\<close>

theorem C4_probe_when_locked_counterexample:
  "locked locked_04A23B9C
   \<and> map_option snd (loop second_card_in_field locked_04A23B9C) =
       Some [PCD_WriteRegister TxModeReg 0x00,
             PCD_WriteRegister RxModeReg 0x00,
             PCD_WriteRegister ModWidthReg 0x26,
             PICC_WakeupA 2,
             PICC_Select uid_04A23B9C 32,
             PICC_HaltA]"
  by (simp add: scenario_second_card presence_probe_def) (simp add: locked_04A23B9C_def)

text \<open>
  C4, amended: the presence probe (the three register writes, then the wakeup) is
  performed at the start of every pass, whatever \<^verbatim>\<open>locked\<close> is. On a pass entered
  with \<^verbatim>\<open>locked\<close> true the result of the probe is ignored: the next call is the
  selection, and the whole pass is the same whatever status the wakeup returned.
\<close>

theorem C4_probe_on_every_pass:
  "(loop d s = Some (s', tr) \<longrightarrow> take 4 tr = presence_probe)
   \<and> (locked s \<longrightarrow>
        (\<exists>s'' rest. loop d s =
           Some (s'', presence_probe
                   @ PICC_Select (rfid_uid s) (word_of_nat (8 * unat (size_uid (rfid_uid s)))) # rest)))
   \<and> (locked s \<longrightarrow> loop (d\<lparr>WakeupA := w\<rparr>) s = loop d s)
   \<and> ((fst (Select d (rfid_uid s) (word_of_nat (8 * unat (size_uid (rfid_uid s))))) = STATUS_OK \<longrightarrow>
           in_bounds (snd (Select d (rfid_uid s) (word_of_nat (8 * unat (size_uid (rfid_uid s))))))) \<longrightarrow>
        loop d s \<noteq> None)"
proof (intro conjI)
  have len: "length presence_probe = 4"
    by (simp add: presence_probe_def)
  show "loop d s = Some (s', tr) \<longrightarrow> take 4 tr = presence_probe"
    by (rule loop_cases [of s d]) (auto simp: len)
  show "locked s \<longrightarrow>
      (\<exists>s'' rest. loop d s =
         Some (s'', presence_probe
                 @ PICC_Select (rfid_uid s) (word_of_nat (8 * unat (size_uid (rfid_uid s)))) # rest))"
    by (rule loop_cases [of s d]) auto
  show "locked s \<longrightarrow> loop (d\<lparr>WakeupA := w\<rparr>) s = loop d s"
    by (simp add: loop_probe_ignored_when_locked)
  show "(fst (Select d (rfid_uid s) (word_of_nat (8 * unat (size_uid (rfid_uid s))))) = STATUS_OK \<longrightarrow>
        in_bounds (snd (Select d (rfid_uid s) (word_of_nat (8 * unat (size_uid (rfid_uid s))))))) \<longrightarrow>
      loop d s \<noteq> None"
    using loop_defined [of d s] by blast
qed

theorem C4_probe_on_every_pass_witness:
  "loop no_card locked_04A23B9C =
     Some (\<lparr>locked = False, rfid_uid = uid_04A23B9C\<lparr>size_uid := 0\<rparr>\<rparr>,
       presence_probe
         @ [PICC_Select uid_04A23B9C 32,
            Serial_print ''unlocked! Reason for unlocking: '',
            Serial_println ''Timeout in communication'', PICC_HaltA])
   \<and> locked locked_04A23B9C
   \<and> fst (Select no_card (rfid_uid locked_04A23B9C)
         (word_of_nat (8 * unat (size_uid (rfid_uid locked_04A23B9C))))) \<noteq> STATUS_OK
   \<and> take 4 (presence_probe
         @ [PICC_Select uid_04A23B9C 32,
            Serial_print ''unlocked! Reason for unlocking: '',
            Serial_println ''Timeout in communication'', PICC_HaltA]) = presence_probe
   \<and> (\<exists>s'' rest. loop no_card locked_04A23B9C =
         Some (s'', presence_probe
           @ PICC_Select (rfid_uid locked_04A23B9C)
               (word_of_nat (8 * unat (size_uid (rfid_uid locked_04A23B9C)))) # rest))
   \<and> loop (no_card\<lparr>WakeupA := STATUS_OK\<rparr>) locked_04A23B9C = loop no_card locked_04A23B9C
   \<and> WakeupA no_card \<noteq> STATUS_OK
   \<and> loop no_card locked_04A23B9C \<noteq> None"
proof -
  note inst = C4_probe_on_every_pass [of no_card locked_04A23B9C
      "\<lparr>locked = False, rfid_uid = uid_04A23B9C\<lparr>size_uid := 0\<rparr>\<rparr>"
      "presence_probe
         @ [PICC_Select uid_04A23B9C 32,
            Serial_print ''unlocked! Reason for unlocking: '',
            Serial_println ''Timeout in communication'', PICC_HaltA]"
      STATUS_OK]
  have a: "locked locked_04A23B9C"
    by (simp add: locked_04A23B9C_def)
  have b: "fst (Select no_card (rfid_uid locked_04A23B9C)
      (word_of_nat (8 * unat (size_uid (rfid_uid locked_04A23B9C))))) \<noteq> STATUS_OK"
    by (simp add: no_card_def)
  have c: "WakeupA no_card \<noteq> STATUS_OK"
    by (simp add: no_card_def)
  show ?thesis
    using inst scenario_C a b c by blast
qed




text \<open>
  C6. A pass entered with \<^verbatim>\<open>locked\<close> false on which a selection is attempted (a card
  was detected) and returns a status other than \<^verbatim>\<open>STATUS_OK\<close> leaves \<^verbatim>\<open>locked\<close>
  false, sets the length of the identifier to 0 whatever the selection left in
  \<^verbatim>\<open>rfid.uid\<close>, and writes nothing.
\<close>

theorem C6_unlocked_select_failed_clears:
  assumes "\<not> locked s" and "fst (PICC_IsAnyCardPresent d)"
    and "Select d (rfid_uid s) (word_of_nat (8 * unat (size_uid (rfid_uid s)))) = (r, u)"
    and "r \<noteq> STATUS_OK"
  shows "\<exists>s' tr. loop d s = Some (s', tr)
    \<and> \<not> locked s'
    \<and> size_uid (rfid_uid s') = 0
    \<and> identifier_bytes (rfid_uid s') = []
    \<and> events tr = []"
proof -
  have "events (presence_probe
      @ [PICC_Select (rfid_uid s) (word_of_nat (8 * unat (size_uid (rfid_uid s)))), PICC_HaltA]) = []"
    by (simp add: events_presence_probe) (simp add: events_def)
  then show ?thesis
    using loop_clear [OF assms] assms(1) by (simp add: identifier_bytes_def)
qed

theorem C6_unlocked_select_failed_clears_witness:
  "\<not> locked unlocked_blank
   \<and> fst (PICC_IsAnyCardPresent crc_failure)
   \<and> Select crc_failure (rfid_uid unlocked_blank) (word_of_nat (8 * unat (size_uid (rfid_uid unlocked_blank))))
       = (STATUS_CRC_WRONG, uid_partial)
   \<and> STATUS_CRC_WRONG \<noteq> STATUS_OK
   \<and> size_uid uid_partial = 4
   \<and> (\<exists>s' tr. loop crc_failure unlocked_blank = Some (s', tr)
        \<and> \<not> locked s'
        \<and> size_uid (rfid_uid s') = 0
        \<and> identifier_bytes (rfid_uid s') = []
        \<and> events tr = [])"
proof -
  have a: "\<not> locked unlocked_blank"
    by (simp add: unlocked_blank_def)
  have b: "fst (PICC_IsAnyCardPresent crc_failure)"
    by (simp add: probe_eq crc_failure_def)
  have c: "Select crc_failure (rfid_uid unlocked_blank)
      (word_of_nat (8 * unat (size_uid (rfid_uid unlocked_blank)))) = (STATUS_CRC_WRONG, uid_partial)"
    by (simp add: crc_failure_def)
  have e: "STATUS_CRC_WRONG \<noteq> STATUS_OK"
    by simp
  have f: "size_uid uid_partial = 4"
    by (simp add: uid_partial_def)
  show ?thesis
    using C6_unlocked_select_failed_clears [OF a b c e] a b c f by simp
qed

text \<open>
  C7. A pass entered with \<^verbatim>\<open>locked\<close> false on which the probe reports no card makes
  no selection attempt, issues no halt command, writes nothing and leaves \<^verbatim>\<open>locked\<close>
  and the identifier as they were.
\<close>

theorem C7_unlocked_absent_returns:
  assumes "\<not> locked s" and "\<not> fst (PICC_IsAnyCardPresent d)"
  shows "\<exists>tr. loop d s = Some (s, tr)
    \<and> (\<forall>u n. PICC_Select u n \<notin> set tr)
    \<and> PICC_HaltA \<notin> set tr
    \<and> events tr = []"
proof -
  have "(\<forall>u n. PICC_Select u n \<notin> set presence_probe)
      \<and> PICC_HaltA \<notin> set presence_probe \<and> events presence_probe = []"
    by (simp add: presence_probe_def events_def)
  then show ?thesis
    using loop_early_exit [OF assms] by simp
qed

theorem C7_unlocked_absent_returns_witness:
  "\<not> locked unlocked_blank
   \<and> \<not> fst (PICC_IsAnyCardPresent no_card)
   \<and> (\<exists>tr. loop no_card unlocked_blank = Some (unlocked_blank, tr)
        \<and> (\<forall>u n. PICC_Select u n \<notin> set tr)
        \<and> PICC_HaltA \<notin> set tr
        \<and> events tr = [])"
proof -
  have a: "\<not> locked unlocked_blank"
    by (simp add: unlocked_blank_def)
  have b: "\<not> fst (PICC_IsAnyCardPresent no_card)"
    by (simp add: probe_eq no_card_def)
  show ?thesis
    using C7_unlocked_absent_returns [OF a b] a b by simp
qed

text \<open>
  C8, as claimed: on every pass, for every lock state, probe result and selection
  result, a halt command is issued. Entered with \<^verbatim>\<open>locked\<close> false and no card in the
  field, the pass returns after the probe: its calls are the three register writes
  and the wakeup, and no halt.
\<close>

theorem C8_no_halt_on_early_return_counterexample:
  "\<not> locked unlocked_blank
   \<and> loop no_card unlocked_blank =
       Some (unlocked_blank,
         [PCD_WriteRegister TxModeReg 0x00,
          PCD_WriteRegister RxModeReg 0x00,
          PCD_WriteRegister ModWidthReg 0x26,
          PICC_WakeupA 2])
   \<and> PICC_HaltA \<notin> set [PCD_WriteRegister TxModeReg 0x00,
          PCD_WriteRegister RxModeReg 0x00,
          PCD_WriteRegister ModWidthReg 0x26,
          PICC_WakeupA 2]"
  by (simp add: scenario_A presence_probe_def) (simp add: unlocked_blank_def)

text \<open>
  C8, amended: on every pass that reaches the selection attempt (every pass except
  one entered with \<^verbatim>\<open>locked\<close> false on which the probe reports no card), exactly one
  halt command is issued, as the last call of the pass, after the state transition
  and whatever the selection returned. On a pass entered with \<^verbatim>\<open>locked\<close> false on
  which the probe reports no card, no halt command is issued.
\<close>

theorem C8_halt_after_selection:
  "(loop d s = Some (s', tr) \<longrightarrow>
      (if \<not> locked s \<and> \<not> fst (PICC_IsAnyCardPresent d) then PICC_HaltA \<notin> set tr
       else (\<exists>pre. tr = pre @ [PICC_HaltA] \<and> PICC_HaltA \<notin> set pre
               \<and> PICC_Select (rfid_uid s) (word_of_nat (8 * unat (size_uid (rfid_uid s)))) \<in> set pre)))
   \<and> ((fst (Select d (rfid_uid s) (word_of_nat (8 * unat (size_uid (rfid_uid s))))) = STATUS_OK \<longrightarrow>
           in_bounds (snd (Select d (rfid_uid s) (word_of_nat (8 * unat (size_uid (rfid_uid s))))))) \<longrightarrow>
        loop d s \<noteq> None)"
proof (intro conjI)
  have probe: "PICC_HaltA \<notin> set presence_probe"
    by (simp add: presence_probe_def)
  show "loop d s = Some (s', tr) \<longrightarrow>
      (if \<not> locked s \<and> \<not> fst (PICC_IsAnyCardPresent d) then PICC_HaltA \<notin> set tr
       else (\<exists>pre. tr = pre @ [PICC_HaltA] \<and> PICC_HaltA \<notin> set pre
               \<and> PICC_Select (rfid_uid s) (word_of_nat (8 * unat (size_uid (rfid_uid s)))) \<in> set pre))"
  proof (rule loop_cases [of s d])
    fix u
    assume "\<not> locked s" "fst (PICC_IsAnyCardPresent d)"
      and l: "loop d s =
        Some (s\<lparr>rfid_uid := u, locked := True\<rparr>,
          presence_probe
            @ [PICC_Select (rfid_uid s) (word_of_nat (8 * unat (size_uid (rfid_uid s)))),
               Serial_print ''locked! NUID tag: '']
            @ concat (map byte_prints (identifier_bytes u))
            @ [Serial_println [], PICC_HaltA])"
    have "presence_probe
            @ [PICC_Select (rfid_uid s) (word_of_nat (8 * unat (size_uid (rfid_uid s)))),
               Serial_print ''locked! NUID tag: '']
            @ concat (map byte_prints (identifier_bytes u))
            @ [Serial_println [], PICC_HaltA]
        = (presence_probe
            @ [PICC_Select (rfid_uid s) (word_of_nat (8 * unat (size_uid (rfid_uid s)))),
               Serial_print ''locked! NUID tag: '']
            @ concat (map byte_prints (identifier_bytes u))
            @ [Serial_println []]) @ [PICC_HaltA]"
      by simp
    moreover have "PICC_HaltA \<notin> set (presence_probe
            @ [PICC_Select (rfid_uid s) (word_of_nat (8 * unat (size_uid (rfid_uid s)))),
               Serial_print ''locked! NUID tag: '']
            @ concat (map byte_prints (identifier_bytes u))
            @ [Serial_println []])"
      using probe byte_prints_no_calls(1) [of "identifier_bytes u"] by simp
    moreover have "PICC_Select (rfid_uid s) (word_of_nat (8 * unat (size_uid (rfid_uid s)))) \<in> set (presence_probe
            @ [PICC_Select (rfid_uid s) (word_of_nat (8 * unat (size_uid (rfid_uid s)))),
               Serial_print ''locked! NUID tag: '']
            @ concat (map byte_prints (identifier_bytes u))
            @ [Serial_println []])"
      by simp
    ultimately show ?thesis
      using l \<open>fst (PICC_IsAnyCardPresent d)\<close> by (metis option.inject prod.inject)
  qed (use probe in \<open>auto simp: append_eq_append_conv2\<close>)
  show "(fst (Select d (rfid_uid s) (word_of_nat (8 * unat (size_uid (rfid_uid s))))) = STATUS_OK \<longrightarrow>
        in_bounds (snd (Select d (rfid_uid s) (word_of_nat (8 * unat (size_uid (rfid_uid s))))))) \<longrightarrow>
      loop d s \<noteq> None"
    using loop_defined [of d s] by blast
qed

theorem C8_halt_after_selection_witness:
  "loop crc_failure unlocked_blank =
     Some (\<lparr>locked = False, rfid_uid = uid_partial\<lparr>size_uid := 0\<rparr>\<rparr>,
       presence_probe @ [PICC_Select uid_blank 0, PICC_HaltA])
   \<and> fst (PICC_IsAnyCardPresent crc_failure)
   \<and> fst (Select crc_failure (rfid_uid unlocked_blank)
         (word_of_nat (8 * unat (size_uid (rfid_uid unlocked_blank))))) \<noteq> STATUS_OK
   \<and> (\<exists>pre. presence_probe @ [PICC_Select uid_blank 0, PICC_HaltA] = pre @ [PICC_HaltA]
         \<and> PICC_HaltA \<notin> set pre
         \<and> PICC_Select (rfid_uid unlocked_blank)
              (word_of_nat (8 * unat (size_uid (rfid_uid unlocked_blank)))) \<in> set pre)
   \<and> loop crc_failure unlocked_blank \<noteq> None"
proof -
  have b: "fst (PICC_IsAnyCardPresent crc_failure)"
    by (simp add: probe_eq crc_failure_def)
  have c: "fst (Select crc_failure (rfid_uid unlocked_blank)
      (word_of_nat (8 * unat (size_uid (rfid_uid unlocked_blank))))) \<noteq> STATUS_OK"
    by (simp add: crc_failure_def)
  note inst = C8_halt_after_selection [of crc_failure unlocked_blank
      "\<lparr>locked = False, rfid_uid = uid_partial\<lparr>size_uid := 0\<rparr>\<rparr>"
      "presence_probe @ [PICC_Select uid_blank 0, PICC_HaltA]"]
  have "\<exists>pre. presence_probe @ [PICC_Select uid_blank 0, PICC_HaltA] = pre @ [PICC_HaltA]
      \<and> PICC_HaltA \<notin> set pre
      \<and> PICC_Select (rfid_uid unlocked_blank)
           (word_of_nat (8 * unat (size_uid (rfid_uid unlocked_blank)))) \<in> set pre"
    using inst scenario_D b by simp
  moreover have "loop crc_failure unlocked_blank \<noteq> None"
    using inst c by blast
  ultimately show ?thesis
    using scenario_D b c by blast
qed




text \<open>
  C10. Every call of \<^verbatim>\<open>PICC_IsAnyCardPresent\<close> writes 0x00 to the transmit-mode
  register, 0x00 to the receive-mode register and 0x26 to the modulation-width
  register, then issues the wakeup; it returns true exactly when the status of the
  wakeup is \<^verbatim>\<open>STATUS_OK\<close> or \<^verbatim>\<open>STATUS_COLLISION\<close>, and false for every other status.
\<close>

theorem C10_probe_resets_then_wakes:
  "snd (PICC_IsAnyCardPresent d) =
     [PCD_WriteRegister TxModeReg 0x00,
      PCD_WriteRegister RxModeReg 0x00,
      PCD_WriteRegister ModWidthReg 0x26,
      PICC_WakeupA 2]
   \<and> fst (PICC_IsAnyCardPresent d) = (WakeupA d \<in> {STATUS_OK, STATUS_COLLISION})"
  by (simp add: PICC_IsAnyCardPresent_def Let_def)

end
